theory Spec2Isabelle
  imports Main "HOL-Library.Multiset" "HOL-Library.Char_ord" "HOL-Library.List_Lexorder"
begin

section \<open>Data model of util/combine\_src.py\<close>

text \<open>
  The script is Python 2: a \<open>str\<close> is a byte string, modelled as \<open>string\<close>
  (a list of 8-bit characters), and an \<open>int\<close> is unbounded, modelled as \<open>int\<close>.
  Every exception the script can raise is a value of \<open>error\<close>.
\<close>

datatype error =
    ParseError       \<comment> \<open>\<open>raise Exception('cannot parse include directive')\<close>\<close>
  | AssertionError   \<comment> \<open>a failed \<open>assert\<close>\<close>
  | TypeError        \<comment> \<open>\<open>None += 1\<close>\<close>
  | ValueError       \<comment> \<open>\<open>list.index\<close> of an absent element\<close>
  | IOError          \<comment> \<open>\<open>open\<close> of a file that cannot be read\<close>
  | CwdError         \<comment> \<open>\<open>raise Exception('CWD must be Duktape checkout top')\<close>\<close>

text \<open>
  Classes \<open>File\<close> and \<open>Line\<close> share the attributes \<open>filename_full\<close> and
  \<open>filename\<close>; the common part is a record that both extend, so that the attribute
  names of the source apply to both.
\<close>

record Named =
  filename_full :: string
  filename :: string

record Line = Named +
  lineno :: int
  data :: string

record File = Named +
  lines :: "Line list"

subsection \<open>Text formatting\<close>

definition dquote :: char where
  "dquote = CHR 0x22"

definition newline :: char where
  "newline = CHR 0x0A"

fun digits_of :: "nat \<Rightarrow> string" where
  "digits_of n =
     (if n < 10 then [''0123456789'' ! n]
      else digits_of (n div 10) @ [''0123456789'' ! (n mod 10)])"

declare digits_of.simps [simp del]

text \<open>Python's \<open>'%d' % n\<close>.\<close>

definition show_int :: "int \<Rightarrow> string" where
  "show_int n = (if n < 0 then CHR ''-'' # digits_of (nat (- n)) else digits_of (nat n))"

text \<open>\<open>'\n'.join(res)\<close>\<close>

fun join_lines :: "string list \<Rightarrow> string" where
  "join_lines [] = []"
| "join_lines [x] = x"
| "join_lines (x # y # ys) = x @ newline # join_lines (y # ys)"

text \<open>
  \<open>str.strip()\<close> removes the ASCII whitespace bytes (space, tab, line feed, vertical tab,
  form feed, carriage return) at both ends.
\<close>

definition is_space :: "char \<Rightarrow> bool" where
  "is_space c = (c \<in> set [CHR 0x20, CHR 0x09, CHR 0x0A, CHR 0x0B, CHR 0x0C, CHR 0x0D])"

definition strip :: "string \<Rightarrow> string" where
  "strip s = rev (dropWhile is_space (rev (dropWhile is_space s)))"

subsection \<open>Paths (\<open>os.path\<close>, POSIX flavour)\<close>

text \<open>\<open>os.path.basename(p)\<close> is \<open>p[p.rfind('/') + 1:]\<close>.\<close>

definition basename :: "string \<Rightarrow> string" where
  "basename p = rev (takeWhile (\<lambda>c. c \<noteq> CHR ''/'') (rev p))"

text \<open>
  \<open>os.path.splitext(p)[1]\<close>: the part of the last path component from its last dot on,
  unless that component has no dot or nothing but dots before the last one.
\<close>

definition splitext_ext :: "string \<Rightarrow> string" where
  "splitext_ext p =
     (let b = basename p in
      if CHR ''.'' \<notin> set b then []
      else if \<forall>c \<in> set (tl (dropWhile (\<lambda>c. c \<noteq> CHR ''.'') (rev b))). c = CHR ''.'' then []
      else CHR ''.'' # rev (takeWhile (\<lambda>c. c \<noteq> CHR ''.'') (rev b)))"

text \<open>\<open>os.path.join(a, b)\<close>\<close>

definition path_join :: "string \<Rightarrow> string \<Rightarrow> string" where
  "path_join a b =
     (if b \<noteq> [] \<and> hd b = CHR ''/'' then b
      else if a = [] \<or> last a = CHR ''/'' then a @ b
      else a @ ''/'' @ b)"

subsection \<open>Constructors and \<open>read\<close>\<close>

definition mk_Line :: "string \<Rightarrow> int \<Rightarrow> string \<Rightarrow> Line" where
  "mk_Line fname n d =
     \<lparr>filename_full = fname, filename = basename fname, lineno = n, data = d\<rparr>"

definition mk_File :: "string \<Rightarrow> Line list \<Rightarrow> File" where
  "mk_File fname ls = \<lparr>filename_full = fname, filename = basename fname, lines = ls\<rparr>"

text \<open>
  Iterating over a file opened in binary mode yields the pieces ending in a line feed and
  a last piece without one when the content does not end in a line feed; \<open>read\<close> strips
  that line feed. \<open>split_lines cur s\<close> is the list of stripped pieces of \<open>cur @ s\<close> when
  \<open>cur\<close> has no line feed.
\<close>

fun split_lines :: "string \<Rightarrow> string \<Rightarrow> string list" where
  "split_lines cur [] = (if cur = [] then [] else [cur])"
| "split_lines cur (c # cs) =
     (if c = newline then cur # split_lines [] cs else split_lines (cur @ [c]) cs)"

text \<open>The loop of \<open>read\<close>: \<open>lineno\<close> counts from 1.\<close>

fun number_lines :: "string \<Rightarrow> int \<Rightarrow> string list \<Rightarrow> Line list" where
  "number_lines fname n [] = []"
| "number_lines fname n (d # ds) = mk_Line fname (n + 1) d # number_lines fname (n + 1) ds"

text \<open>A file system maps a path to the content of the file there, if it can be opened.\<close>

type_synonym filesys = "string \<rightharpoonup> string"

definition read :: "filesys \<Rightarrow> string \<Rightarrow> error + File" where
  "read fs fname =
     (case fs fname of
        None \<Rightarrow> Inl IOError
      | Some content \<Rightarrow> Inr (mk_File fname (number_lines fname 0 (split_lines [] content))))"

definition findFile :: "File list \<Rightarrow> string \<Rightarrow> File option" where
  "findFile files fname = find (\<lambda>i. filename i = fname) files"

section \<open>The include recognisers\<close>

text \<open>
  \<open>re_extinc = re.compile(r'^#include <(.*?)>.*$')\<close> and
  \<open>re_intinc = re.compile(r'^#include \"(duk.*?)\".*$')\<close>, used with \<open>match\<close>.
  A dot matches any byte but a line feed, and \<open>$\<close> matches at the end of the string or
  before a line feed that ends it. The lazy group stops at the first closing delimiter:
  extending it to a later one leaves a suffix of the same rest to \<open>.*$\<close>, which fails on
  the suffix when it fails on the rest.
\<close>

definition rest_ok :: "string \<Rightarrow> bool" where
  "rest_ok t = (newline \<notin> set t \<or> (t \<noteq> [] \<and> last t = newline \<and> newline \<notin> set (butlast t)))"

definition lazy_until :: "char \<Rightarrow> string \<Rightarrow> string option" where
  "lazy_until c s =
     (let g = takeWhile (\<lambda>x. x \<noteq> c) s; r = dropWhile (\<lambda>x. x \<noteq> c) s in
      if r = [] \<or> newline \<in> set g \<or> \<not> rest_ok (tl r) then None else Some g)"

definition startswith :: "string \<Rightarrow> string \<Rightarrow> bool" where
  "startswith s p = (take (length p) s = p)"

definition re_extinc :: "string \<Rightarrow> string option" where
  "re_extinc d =
     (if startswith d ''#include <'' then lazy_until CHR ''>'' (drop 10 d) else None)"

definition re_intinc :: "string \<Rightarrow> string option" where
  "re_intinc d =
     (if startswith d (''#include '' @ [dquote] @ ''duk'')
      then map_option (\<lambda>g. ''duk'' @ g) (lazy_until dquote (drop 13 d)) else None)"

section \<open>\<open>processIncludes\<close>\<close>

text \<open>The loop over \<open>f.lines\<close>, with the two lists built so far.\<close>

fun processIncludes_loop ::
  "Line list \<Rightarrow> string list \<times> string list \<Rightarrow> error + string list \<times> string list" where
  "processIncludes_loop [] acc = Inr acc"
| "processIncludes_loop (l # ls) (extinc, intinc) =
     (if \<not> startswith (data l) ''#include'' then processIncludes_loop ls (extinc, intinc)
      else case re_extinc (data l) of
        Some m \<Rightarrow> processIncludes_loop ls (extinc @ [m], intinc)
      | None \<Rightarrow>
         (case re_intinc (data l) of
            Some m \<Rightarrow> processIncludes_loop ls (extinc, intinc @ [m])
          | None \<Rightarrow> Inl ParseError))"

definition processIncludes :: "File \<Rightarrow> error + string list \<times> string list" where
  "processIncludes f = processIncludes_loop (lines f) ([], [])"

section \<open>The emitter (\<open>emit\<close>, a closure of \<open>createCombined\<close>)\<close>

text \<open>
  \<open>emit\<close> takes either a string or a \<open>Line\<close> object (\<open>isinstance(line, (str, unicode))\<close>).
\<close>

datatype item = Str string | Ln Line

text \<open>
  The state that \<open>emit\<close> closes over: the output list \<open>res\<close> and the two slots of
  \<open>emit_state = [ None, None ]\<close> (\<open>curr_filename\<close>, \<open>curr_lineno\<close>).
\<close>

record emit_st =
  res :: "string list"
  curr_filename :: "string option"
  curr_lineno :: "int option"

text \<open>\<open>'#line %d "%s"' % (line.lineno, line.filename)\<close>\<close>

definition line_marker :: "Line \<Rightarrow> string" where
  "line_marker l = ''#line '' @ show_int (lineno l) @ '' '' @ [dquote] @ filename l @ [dquote]"

text \<open>
  In the string branch \<open>emit_state[1] += 1\<close> raises \<open>TypeError\<close> while the slot still
  holds \<open>None\<close>; the exception leaves \<open>createCombined\<close>, so the state at that point is
  never observed.
\<close>

fun emit :: "item \<Rightarrow> emit_st \<Rightarrow> error + emit_st" where
  "emit (Str s) st =
     (case curr_lineno st of
        None \<Rightarrow> Inl TypeError
      | Some n \<Rightarrow> Inr (st\<lparr>res := res st @ [s], curr_lineno := Some (n + 1)\<rparr>))"
| "emit (Ln l) st =
     Inr (st\<lparr>res := (if Some (filename l) \<noteq> curr_filename st \<or> Some (lineno l) \<noteq> curr_lineno st
                       then res st @ [line_marker l] else res st) @ [data l],
              curr_filename := Some (filename l),
              curr_lineno := Some (lineno l + 1)\<rparr>)"

section \<open>\<open>processHeader\<close>\<close>

text \<open>\<open>'/* already included: %s */' % f_inc.filename\<close>\<close>

definition already_included :: "string \<Rightarrow> string" where
  "already_included n = ''/* already included: '' @ n @ '' */''"

text \<open>
  \<open>processHeader\<close> is a closure of \<open>createCombined\<close>: it reads \<open>files\<close>, calls
  \<open>emit\<close> and updates the dictionary \<open>processed\<close>, which is only ever tested with
  \<open>has_key\<close> and assigned \<open>True\<close>, that is a set of names. The model passes the three
  explicitly. The emitter is a parameter \<open>emit_fn\<close> with a state of its own, so that the
  same expansion can be run against another sink, such as one that records the calls.
  \<open>processHeader_lines\<close> is the loop \<open>for line in f_hdr.lines\<close> from some line on; the
  recursive call of \<open>processHeader\<close> is the nested call on \<open>lines f_inc\<close>.
  \<open>assert(f_inc)\<close> fails exactly when \<open>findFile\<close> returned \<open>None\<close>.
\<close>

function (domintros) processHeader_lines ::
  "(item \<Rightarrow> 's \<Rightarrow> error + 's) \<Rightarrow> File list \<Rightarrow> Line list \<Rightarrow> 's \<times> string set
     \<Rightarrow> error + 's \<times> string set" where
  "processHeader_lines emit_fn files [] st = Inr st"
| "processHeader_lines emit_fn files (l # ls) (s, processed) =
     (case re_intinc (data l) of
        None \<Rightarrow>
          (case emit_fn (Ln l) s of
             Inl e \<Rightarrow> Inl e
           | Inr s' \<Rightarrow> processHeader_lines emit_fn files ls (s', processed))
      | Some incname \<Rightarrow>
          if incname \<in> set [''duktape.h'', ''duk_custom.h''] then
            (case emit_fn (Ln l) s of
               Inl e \<Rightarrow> Inl e
             | Inr s' \<Rightarrow> processHeader_lines emit_fn files ls (s', processed))
          else
            (case findFile files incname of
               None \<Rightarrow> Inl AssertionError
             | Some f_inc \<Rightarrow>
                 if filename f_inc \<in> processed then
                   (case emit_fn (Str (already_included (filename f_inc))) s of
                      Inl e \<Rightarrow> Inl e
                    | Inr s' \<Rightarrow> processHeader_lines emit_fn files ls (s', processed))
                 else
                   (case processHeader_lines emit_fn files (lines f_inc)
                           (s, insert (filename f_inc) processed) of
                      Inl e \<Rightarrow> Inl e
                    | Inr st' \<Rightarrow> processHeader_lines emit_fn files ls st')))"
  by pat_completeness auto

text \<open>
  The nested call returns a larger \<open>processed\<close>; with it, each call either shrinks the
  set of file names not yet processed or keeps it and shortens the list of lines left.
\<close>

lemma processHeader_lines_mono:
  "processHeader_lines_dom (emit_fn, files, ls, st) \<Longrightarrow>
   processHeader_lines emit_fn files ls st = Inr st' \<Longrightarrow> snd st \<subseteq> snd st'"
proof (induction emit_fn files ls st arbitrary: st' rule: processHeader_lines.pinduct)
  case (1 emit_fn files st)
  then show ?case by (simp add: processHeader_lines.psimps)
next
  case (2 emit_fn files l ls s processed)
  note eq = "2.prems" [unfolded processHeader_lines.psimps(2) [OF "2.hyps"]]
  show ?case
  proof (cases "re_intinc (data l)")
    case None
    with eq obtain s' where "emit_fn (Ln l) s = Inr s'"
      and "processHeader_lines emit_fn files ls (s', processed) = Inr st'"
      by (auto split: sum.splits)
    with "2.IH"(1) [OF None] show ?thesis by fastforce
  next
    case (Some incname)
    show ?thesis
    proof (cases "incname \<in> set [''duktape.h'', ''duk_custom.h'']")
      case True
      with eq Some obtain s' where "emit_fn (Ln l) s = Inr s'"
        and "processHeader_lines emit_fn files ls (s', processed) = Inr st'"
        by (auto split: sum.splits)
      with "2.IH"(2) [OF Some True] show ?thesis by fastforce
    next
      case False
      with eq Some obtain f_inc where f: "findFile files incname = Some f_inc"
        by (auto split: option.splits)
      show ?thesis
      proof (cases "filename f_inc \<in> processed")
        case True
        with eq Some False f obtain s' where
          "emit_fn (Str (already_included (filename f_inc))) s = Inr s'"
          and "processHeader_lines emit_fn files ls (s', processed) = Inr st'"
          by (auto split: sum.splits)
        with "2.IH"(3) [OF Some False f True] show ?thesis by fastforce
      next
        case notin: False
        with eq Some False f obtain st1 where
          a: "processHeader_lines emit_fn files (lines f_inc)
                (s, insert (filename f_inc) processed) = Inr st1"
          and b: "processHeader_lines emit_fn files ls st1 = Inr st'"
          by (auto split: sum.splits)
        from "2.IH"(4) [OF Some False f notin a]
        have "insert (filename f_inc) processed \<subseteq> snd st1" by simp
        moreover from "2.IH"(5) [OF Some False f notin a b]
        have "snd st1 \<subseteq> snd st'" .
        ultimately show ?thesis by auto
      qed
    qed
  qed
qed

termination processHeader_lines
proof (relation "inv_image (less_than <*lex*> less_than)
    (\<lambda>(emit_fn, files, ls, st). (card (filename ` set files - snd st), length ls))", goal_cases)
  case 1
  show ?case by (intro wf_inv_image wf_lex_prod wf_less_than)
next
  case (2 emit_fn files l ls s processed x2)
  then show ?case by simp
next
  case (3 emit_fn files l ls s processed x2 x2a)
  then show ?case by simp
next
  case (4 emit_fn files l ls s processed x2 x2a x2b)
  then show ?case by simp
next
  case (5 emit_fn files l ls s processed x2 x2a)
  then have "filename x2a \<in> filename ` set files"
    by (auto simp: findFile_def find_Some_iff)
  with 5 have "filename ` set files - insert (filename x2a) processed
      \<subset> filename ` set files - processed" by auto
  then have "card (filename ` set files - insert (filename x2a) processed)
      < card (filename ` set files - processed)"
    by (intro psubset_card_mono) auto
  then show ?case by simp
next
  case (6 emit_fn files l ls s processed x2 x2a x2b)
  from processHeader_lines_mono [OF 6(6) 6(5)]
  have "processed \<subseteq> snd x2b" by auto
  then have "card (filename ` set files - snd x2b) \<le> card (filename ` set files - processed)"
    by (intro card_mono) auto
  then show ?case by (cases x2b) auto
qed

text \<open>Every argument is in the accessible part of the call relation.\<close>

lemma processHeader_lines_total: "processHeader_lines_dom (emit_fn, files, ls, st)"
proof (induction emit_fn files ls st rule: processHeader_lines.induct)
  case (1 emit_fn files st)
  show ?case by (rule processHeader_lines.domintros(1))
next
  case (2 emit_fn files l ls s processed)
  show ?case
    by (rule processHeader_lines.domintros(2)) (auto intro: "2.IH")
qed

definition processHeader ::
  "(item \<Rightarrow> 's \<Rightarrow> error + 's) \<Rightarrow> File list \<Rightarrow> File \<Rightarrow> 's \<times> string set
     \<Rightarrow> error + 's \<times> string set" where
  "processHeader emit_fn files f_hdr st = processHeader_lines emit_fn files (lines f_hdr) st"

section \<open>\<open>createCombined\<close>\<close>

text \<open>The loop that marks all internal headers processed.\<close>

fun mark_headers :: "File list \<Rightarrow> string set \<Rightarrow> string set" where
  "mark_headers [] processed = processed"
| "mark_headers (f # fs) processed =
     (if splitext_ext (filename f) \<noteq> ''.h'' then mark_headers fs processed
      else mark_headers fs (insert (filename f) processed))"

text \<open>\<open>'/* include removed: %s */' % incname\<close>\<close>

definition include_removed :: "string \<Rightarrow> string" where
  "include_removed n = ''/* include removed: '' @ n @ '' */''"

text \<open>The inner loop \<open>for line in f.lines\<close> of the pass over the remaining files.\<close>

fun emit_file_lines :: "(item \<Rightarrow> 's \<Rightarrow> error + 's) \<Rightarrow> Line list \<Rightarrow> 's \<Rightarrow> error + 's" where
  "emit_file_lines emit_fn [] s = Inr s"
| "emit_file_lines emit_fn (l # ls) s =
     (case (case re_intinc (data l) of
              None \<Rightarrow> emit_fn (Ln l) s
            | Some incname \<Rightarrow> emit_fn (Str (include_removed incname)) s) of
        Inl e \<Rightarrow> Inl e
      | Inr s' \<Rightarrow> emit_file_lines emit_fn ls s')"

text \<open>The outer loop \<open>for f in files\<close>.\<close>

fun emit_remaining ::
  "(item \<Rightarrow> 's \<Rightarrow> error + 's) \<Rightarrow> string set \<Rightarrow> File list \<Rightarrow> 's \<Rightarrow> error + 's" where
  "emit_remaining emit_fn processed [] s = Inr s"
| "emit_remaining emit_fn processed (f # fs) s =
     (if filename f \<in> processed then emit_remaining emit_fn processed fs s
      else case emit_file_lines emit_fn (lines f) s of
        Inl e \<Rightarrow> Inl e
      | Inr s' \<Rightarrow> emit_remaining emit_fn processed fs s')"

text \<open>
  The part of \<open>createCombined\<close> after the banner: expand the headers from
  \<open>duk_internal.h\<close> with an empty \<open>processed\<close>, mark all headers, emit the rest.
\<close>

definition expand_and_emit ::
  "(item \<Rightarrow> 's \<Rightarrow> error + 's) \<Rightarrow> File list \<Rightarrow> 's \<Rightarrow> error + 's" where
  "expand_and_emit emit_fn files s =
     (case findFile files ''duk_internal.h'' of
        None \<Rightarrow> Inl AssertionError
      | Some f_dukint \<Rightarrow>
          (case processHeader emit_fn files f_dukint (s, {}) of
             Inl e \<Rightarrow> Inl e
           | Inr (s', processed) \<Rightarrow>
               emit_remaining emit_fn (mark_headers files processed) files s'))"

text \<open>
  The first eight lines of the output. In Python 2 \<open>/\<close> on \<open>int\<close> is floor division and
  \<open>%\<close> takes the sign of the divisor, as \<open>div\<close> and \<open>mod\<close> on \<open>int\<close> do.
\<close>

definition banner :: "int \<Rightarrow> string \<Rightarrow> string \<Rightarrow> string list" where
  "banner duk_version git_commit git_describe =
     [''/*'',
      '' *  Single file autogenerated distributable for Duktape '' @
        show_int (duk_version div 10000) @ ''.'' @ show_int (duk_version div 100 mod 100) @
        ''.'' @ show_int (duk_version mod 100) @ ''.'',
      '' *  Git commit '' @ git_commit @ '' ('' @ git_describe @ '').'',
      '' *'',
      '' *  See Duktape AUTHORS.rst and LICENSE.txt for copyright and'',
      '' *  licensing information.'',
      '' */'',
      []]"

text \<open>
  The arguments \<open>extinc\<close> and \<open>intinc\<close> are not used by the body. The banner lines and the
  license and authors texts are appended to \<open>res\<close> directly, not through \<open>emit\<close>.
\<close>

definition createCombined ::
  "filesys \<Rightarrow> File list \<Rightarrow> string list \<Rightarrow> string list \<Rightarrow> int \<Rightarrow> string \<Rightarrow> string \<Rightarrow>
     string \<Rightarrow> string \<Rightarrow> error + string" where
  "createCombined fs files extinc intinc duk_version git_commit git_describe
       license_file authors_file =
     (case fs license_file of
        None \<Rightarrow> Inl IOError
      | Some license_text \<Rightarrow>
          (case fs authors_file of
             None \<Rightarrow> Inl IOError
           | Some authors_text \<Rightarrow>
               (case expand_and_emit emit files
                       \<lparr>res = banner duk_version git_commit git_describe
                                @ [''/* LICENSE.txt */''] @ map strip (split_lines [] license_text)
                                @ [''/* AUTHORS.rst */''] @ map strip (split_lines [] authors_text),
                        curr_filename = None, curr_lineno = None\<rparr> of
                  Inl e \<Rightarrow> Inl e
                | Inr st \<Rightarrow> Inr (join_lines (res st) @ [newline]))))"

section \<open>\<open>main\<close>\<close>

definition handpick :: "string list" where
  "handpick =
     [''duk_strings.c'', ''duk_debug_macros.c'', ''duk_builtins.c'', ''duk_error_macros.c'',
      ''duk_unicode_support.c'', ''duk_util_misc.c'', ''duk_util_hashprime.c'',
      ''duk_hobject_class.c'']"

text \<open>
  The loop \<open>for fn in handpick\<close> (over the reversed list): \<open>filelist.index(fn)\<close> raises
  \<open>ValueError\<close> when \<open>fn\<close> is absent, and \<open>filelist.insert(0, filelist.pop(idx))\<close> moves
  the first occurrence to the front.
\<close>

fun move_to_front :: "string list \<Rightarrow> string list \<Rightarrow> error + string list" where
  "move_to_front [] filelist = Inr filelist"
| "move_to_front (fn # fns) filelist =
     (if fn \<in> set filelist then move_to_front fns (fn # remove1 fn filelist)
      else Inl ValueError)"

text \<open>
  \<open>filelist.sort()\<close> compares byte strings lexicographically by byte value, which is the
  order of \<open>string\<close>; then \<open>handpick.reverse()\<close> and the loop. The priority list is a
  parameter; \<open>main\<close> passes \<open>handpick\<close>.
\<close>

definition order_files :: "string list \<Rightarrow> string list \<Rightarrow> error + string list" where
  "order_files priority listing = move_to_front (rev priority) (sort listing)"

text \<open>The loop that reads the files with extension \<open>.c\<close> or \<open>.h\<close>, in order.\<close>

fun load_files :: "filesys \<Rightarrow> string \<Rightarrow> string list \<Rightarrow> error + File list" where
  "load_files fs dir [] = Inr []"
| "load_files fs dir (fn # fns) =
     (if splitext_ext fn \<notin> set [''.c'', ''.h''] then load_files fs dir fns
      else case read fs (path_join dir fn) of
        Inl e \<Rightarrow> Inl e
      | Inr f \<Rightarrow>
          (case load_files fs dir fns of
             Inl e \<Rightarrow> Inl e
           | Inr files \<Rightarrow> Inr (f # files)))"

text \<open>\<open>for i in new: if i in acc: continue; acc.append(i)\<close>\<close>

fun add_new :: "string list \<Rightarrow> string list \<Rightarrow> string list" where
  "add_new [] acc = acc"
| "add_new (i # new) acc = (if i \<in> set acc then add_new new acc else add_new new (acc @ [i]))"

fun collect_includes ::
  "File list \<Rightarrow> string list \<times> string list \<Rightarrow> error + string list \<times> string list" where
  "collect_includes [] acc = Inr acc"
| "collect_includes (f # fs) (extinc, intinc) =
     (case processIncludes f of
        Inl e \<Rightarrow> Inl e
      | Inr (extnew, intnew) \<Rightarrow> collect_includes fs (add_new extnew extinc, add_new intnew intinc))"

text \<open>
  What a run of the script sees: whether \<open>LICENSE.txt\<close> exists in the working directory,
  the readable files, the result of \<open>os.listdir(sys.argv[1])\<close> (in the order the system
  returns it) and the arguments, with \<open>int(sys.argv[3])\<close> already converted.
\<close>

record env =
  license_exists :: bool
  env_fs :: filesys
  env_listdir :: "string list"
  argv_srcdir :: string
  argv_outname :: string
  argv_duk_version :: int
  argv_git_commit :: string
  argv_git_describe :: string
  argv_license_file :: string
  argv_authors_file :: string

text \<open>
  The script writes one file, with its last statements. \<open>main\<close> returns the name and the
  content written there, or the exception raised before \<open>open(outname, 'wb')\<close> is reached,
  in which case nothing has been written.
\<close>

definition main :: "env \<Rightarrow> error + string \<times> string" where
  "main e =
     (if \<not> license_exists e then Inl CwdError
      else if argv_outname e = [] then Inl AssertionError
      else case order_files handpick (env_listdir e) of
        Inl x \<Rightarrow> Inl x
      | Inr filelist \<Rightarrow>
          (case load_files (env_fs e) (argv_srcdir e) filelist of
             Inl x \<Rightarrow> Inl x
           | Inr files \<Rightarrow>
               (case collect_includes files ([], []) of
                  Inl x \<Rightarrow> Inl x
                | Inr (extinc, intinc) \<Rightarrow>
                    (case createCombined (env_fs e) files extinc intinc (argv_duk_version e)
                            (argv_git_commit e) (argv_git_describe e)
                            (argv_license_file e) (argv_authors_file e) of
                       Inl x \<Rightarrow> Inl x
                     | Inr final \<Rightarrow> Inr (argv_outname e, final)))))"

section \<open>Sequences of calls and example data\<close>

text \<open>Successive calls of an emitter on the items of a list, stopping at the first exception.\<close>

fun emit_all :: "(item \<Rightarrow> 's \<Rightarrow> error + 's) \<Rightarrow> item list \<Rightarrow> 's \<Rightarrow> error + 's" where
  "emit_all emit_fn [] s = Inr s"
| "emit_all emit_fn (x # xs) s =
     (case emit_fn x s of Inl e \<Rightarrow> Inl e | Inr s' \<Rightarrow> emit_all emit_fn xs s')"

text \<open>A line of a header \<open>duk_a.h\<close>, for the examples.\<close>

definition la :: "int \<Rightarrow> string \<Rightarrow> Line" where
  "la n d = \<lparr>filename_full = ''src/duk_a.h'', filename = ''duk_a.h'', lineno = n, data = d\<rparr>"

text \<open>A quoted include directive.\<close>

definition inc_quoted :: "string \<Rightarrow> string" where
  "inc_quoted n = ''#include '' @ [dquote] @ n @ [dquote]"

text \<open>
  A small checkout: the eight files that \<open>main\<close> moves to the front, the root header
  with a text of choice, a file that is not a source file, the license and the authors.
\<close>

definition example_fs :: "string \<Rightarrow> filesys" where
  "example_fs root_text =
     [''src/duk_strings.c'' \<mapsto> ''int s;'' @ [newline],
      ''src/duk_debug_macros.c'' \<mapsto> [],
      ''src/duk_builtins.c'' \<mapsto> [],
      ''src/duk_error_macros.c'' \<mapsto> [],
      ''src/duk_unicode_support.c'' \<mapsto> [],
      ''src/duk_util_misc.c'' \<mapsto> [],
      ''src/duk_util_hashprime.c'' \<mapsto> [],
      ''src/duk_hobject_class.c'' \<mapsto> [],
      ''src/duk_internal.h'' \<mapsto> root_text,
      ''LICENSE.txt'' \<mapsto> ''license'' @ [newline],
      ''AUTHORS.rst'' \<mapsto> ''authors'' @ [newline]]"

definition example_env :: "string \<Rightarrow> env" where
  "example_env root_text =
     \<lparr>license_exists = True, env_fs = example_fs root_text,
      env_listdir = [''duk_internal.h'', ''README'', ''duk_util_misc.c'', ''duk_strings.c'',
        ''duk_debug_macros.c'', ''duk_builtins.c'', ''duk_error_macros.c'',
        ''duk_unicode_support.c'', ''duk_util_hashprime.c'', ''duk_hobject_class.c''],
      argv_srcdir = ''src'', argv_outname = ''duktape.c'', argv_duk_version = 10203,
      argv_git_commit = ''abc'', argv_git_describe = ''v1.2.3'',
      argv_license_file = ''LICENSE.txt'', argv_authors_file = ''AUTHORS.rst''\<rparr>"

definition example_files :: "string \<Rightarrow> File list" where
  "example_files root_text =
     map (\<lambda>(n, c). mk_File (''src/'' @ n) (number_lines (''src/'' @ n) 0 (split_lines [] c)))
       [(''duk_strings.c'', ''int s;'' @ [newline]), (''duk_debug_macros.c'', []),
        (''duk_builtins.c'', []), (''duk_error_macros.c'', []), (''duk_unicode_support.c'', []),
        (''duk_util_misc.c'', []), (''duk_util_hashprime.c'', []), (''duk_hobject_class.c'', []),
        (''duk_internal.h'', root_text)]"

text \<open>An emitter that records the calls made to it, and never raises.\<close>

definition record_item :: "item \<Rightarrow> item list \<Rightarrow> error + item list" where
  "record_item x xs = Inr (xs @ [x])"

text \<open>What the pass over the remaining files passes to the emitter for a line.\<close>

definition body_item :: "Line \<Rightarrow> item" where
  "body_item l =
     (case re_intinc (data l) of None \<Rightarrow> Ln l | Some incname \<Rightarrow> Str (include_removed incname))"

text \<open>The file that \<open>read\<close> returns for the name \<open>n\<close> in directory \<open>src\<close> with lines \<open>ds\<close>.\<close>

definition hdr :: "string \<Rightarrow> string list \<Rightarrow> File" where
  "hdr n ds = mk_File (''src/'' @ n) (number_lines (''src/'' @ n) 0 ds)"

text \<open>The root header includes \<open>duk_b.h\<close>, which includes the root header.\<close>

definition cycle_files :: "File list" where
  "cycle_files =
     [hdr ''duk_internal.h'' [''x'', inc_quoted ''duk_b.h'', ''y''],
      hdr ''duk_b.h'' [inc_quoted ''duk_internal.h'', ''b'']]"


text \<open>An empty root header and a source file whose first line includes it.\<close>

definition stray_files :: "File list" where
  "stray_files =
     [hdr ''duk_a.c'' [inc_quoted ''duk_internal.h'', ''int a;''],
      hdr ''duk_internal.h'' []]"

text \<open>Header \<open>duk_a.h\<close> includes \<open>duk_b.h\<close> and then \<open>duk_c.h\<close>, which includes \<open>duk_b.h\<close>.\<close>

definition scenario_files :: "File list" where
  "scenario_files =
     [hdr ''duk_a.h'' [inc_quoted ''duk_b.h'', inc_quoted ''duk_c.h''],
      hdr ''duk_b.h'' [''b1'', ''b2''],
      hdr ''duk_c.h'' [inc_quoted ''duk_b.h'']]"

text \<open>The emitter state at the start of \<open>createCombined\<close>, without the banner.\<close>

definition init_st :: emit_st where
  "init_st = \<lparr>res = [], curr_filename = None, curr_lineno = None\<rparr>"

text \<open>
  The license and authors files of the examples, and the first lines of the output for
  them with version 10203, commit \<open>abc\<close> and tag \<open>v1.2.3\<close>.
\<close>

definition meta_fs :: filesys where
  "meta_fs = [''LICENSE.txt'' \<mapsto> ''license'' @ [newline], ''AUTHORS.rst'' \<mapsto> ''authors'']"

definition example_banner :: "string list" where
  "example_banner =
     [''/*'',
      '' *  Single file autogenerated distributable for Duktape 1.2.3.'',
      '' *  Git commit abc (v1.2.3).'',
      '' *'',
      '' *  See Duktape AUTHORS.rst and LICENSE.txt for copyright and'',
      '' *  licensing information.'',
      '' */'',
      [],
      ''/* LICENSE.txt */'', ''license'', ''/* AUTHORS.rst */'', ''authors'']"



text \<open>
  The root header includes \<open>duk_b.h\<close>, which is empty, and then \<open>duk_c.h\<close>, which
  includes \<open>duk_b.h\<close>.
\<close>

definition empty_b_files :: "File list" where
  "empty_b_files =
     [hdr ''duk_internal.h'' [inc_quoted ''duk_b.h'', inc_quoted ''duk_c.h''],
      hdr ''duk_b.h'' [],
      hdr ''duk_c.h'' [inc_quoted ''duk_b.h'']]"

text \<open>
  A directory \<open>src\<close> in which every file holds one line, its own name, and a listing of
  it in some order: two more source files, the root header, a text file and the eight
  files that \<open>main\<close> moves to the front.
\<close>

definition order_fs :: filesys where
  "order_fs p = (if take 4 p = ''src/'' then Some (drop 4 p @ [newline]) else None)"

definition order_listing :: "string list" where
  "order_listing = [''b.c'', ''notes.txt'', ''a.c'', ''duk_internal.h''] @ rev handpick"

definition order_env :: env where
  "order_env =
     \<lparr>license_exists = True, env_fs = order_fs, env_listdir = order_listing,
      argv_srcdir = ''src'', argv_outname = ''duktape.c'', argv_duk_version = 10203,
      argv_git_commit = ''abc'', argv_git_describe = ''v1.2.3'',
      argv_license_file = ''src/LICENSE.txt'', argv_authors_file = ''src/AUTHORS.rst''\<rparr>"


section \<open>Evaluating the examples\<close>

lemmas ex_defs = hdr_def mk_File_def mk_Line_def basename_def inc_quoted_def dquote_def newline_def
  re_intinc_def re_extinc_def startswith_def lazy_until_def rest_ok_def findFile_def
  processHeader_def expand_and_emit_def record_item_def already_included_def include_removed_def
  splitext_ext_def line_marker_def show_int_def digits_of.simps init_st_def

lemmas run_defs = createCombined_def meta_fs_def banner_def strip_def is_space_def
  example_banner_def ex_defs

lemmas main_defs = main_def example_env_def example_fs_def order_files_def handpick_def
  read_def path_join_def collect_includes.simps processIncludes_def

section \<open>The emitter: cursor and markers\<close>

lemma emit_all_append:
  "emit_all emit_fn (xs @ ys) s =
     (case emit_all emit_fn xs s of Inl e \<Rightarrow> Inl e | Inr s' \<Rightarrow> emit_all emit_fn ys s')"
  by (induction xs arbitrary: s) (auto split: sum.splits)

lemma emit_all_Strs:
  "curr_lineno st = Some n \<Longrightarrow>
   emit_all emit (map Str ss) st =
     Inr (st\<lparr>res := res st @ ss, curr_lineno := Some (n + int (length ss))\<rparr>)"
proof (induction ss arbitrary: st n)
  case Nil
  then show ?case by simp
next
  case (Cons s ss)
  have "emit (Str s) st = Inr (st\<lparr>res := res st @ [s], curr_lineno := Some (n + 1)\<rparr>)"
    using Cons.prems by simp
  moreover have "emit_all emit (map Str ss) (st\<lparr>res := res st @ [s], curr_lineno := Some (n + 1)\<rparr>)
     = Inr (st\<lparr>res := res st @ [s], curr_lineno := Some (n + 1)\<rparr>
         \<lparr>res := res (st\<lparr>res := res st @ [s], curr_lineno := Some (n + 1)\<rparr>) @ ss,
          curr_lineno := Some (n + 1 + int (length ss))\<rparr>)"
    by (rule Cons.IH) simp
  ultimately show ?case by (simp add: algebra_simps)
qed

text \<open>
  C10. A call of \<open>emit\<close> that returns changes the state as follows. On a string, the file
  name of the cursor stays, its line number was set and grows by one, and the string is
  appended to \<open>res\<close>. On a \<open>Line\<close> with origin \<open>(name, n)\<close> the cursor becomes
  \<open>(name, n + 1)\<close>, with or without a marker, and \<open>res\<close> grows by the text of the line,
  preceded by at most the marker. Nothing else is part of the state. A call on a \<open>Line\<close>
  always returns.
\<close>

theorem emit_frame:
  "(emit x st = Inr st' \<longrightarrow>
     (case x of
        Str s \<Rightarrow>
          curr_filename st' = curr_filename st \<and>
          (\<exists>n. curr_lineno st = Some n \<and> curr_lineno st' = Some (n + 1)) \<and>
          res st' = res st @ [s]
      | Ln l \<Rightarrow>
          curr_filename st' = Some (filename l) \<and>
          curr_lineno st' = Some (lineno l + 1) \<and>
          (res st' = res st @ [data l] \<or> res st' = res st @ [line_marker l, data l]))) \<and>
   (\<exists>st''. emit (Ln l') st = Inr st'')"
  by (cases x) (auto split: option.splits)

theorem emit_frame_witness:
  "emit (Str ''/* x */'') \<lparr>res = [''a''], curr_filename = Some ''duk_a.h'', curr_lineno = Some 2\<rparr>
     = Inr \<lparr>res = [''a'', ''/* x */''], curr_filename = Some ''duk_a.h'', curr_lineno = Some 3\<rparr>
   \<and> curr_filename \<lparr>res = [''a'', ''/* x */''], curr_filename = Some ''duk_a.h'', curr_lineno = Some 3\<rparr>
       = curr_filename \<lparr>res = [''a''], curr_filename = Some ''duk_a.h'', curr_lineno = Some (2::int)\<rparr>"
  using emit_frame [of "Str ''/* x */''"
      "\<lparr>res = [''a''], curr_filename = Some ''duk_a.h'', curr_lineno = Some 2\<rparr>"
      "\<lparr>res = [''a'', ''/* x */''], curr_filename = Some ''duk_a.h'', curr_lineno = Some 3\<rparr>"]
  by simp

text \<open>
  C2, as the code has it. After a \<open>Line\<close> with origin \<open>(name, n)\<close> and \<open>k\<close> strings the
  cursor is \<open>(name, n + 1 + k)\<close>: every string advances the line number. In any state, a
  \<open>Line\<close> is preceded by a marker if and only if its origin is not the cursor. So a line
  that follows a string which took the place of an include directive of its own file
  gets no marker, and the first \<open>Line\<close> of a run, emitted while the cursor still holds
  \<open>None\<close> twice, always gets one.
\<close>

theorem marker_iff_cursor:
  "(\<exists>st1 st2.
     emit_all emit (Ln l0 # map Str ss) st = Inr st1 \<and>
     curr_filename st1 = Some (filename l0) \<and>
     curr_lineno st1 = Some (lineno l0 + 1 + int (length ss)) \<and>
     emit (Ln l) st1 = Inr st2 \<and>
     res st2 = res st1 @
       (if filename l = filename l0 \<and> lineno l = lineno l0 + 1 + int (length ss)
        then [data l] else [line_marker l, data l])) \<and>
   (\<exists>st2. emit (Ln l) st = Inr st2 \<and>
     res st2 = res st @
       (if curr_filename st = Some (filename l) \<and> curr_lineno st = Some (lineno l)
        then [data l] else [line_marker l, data l])) \<and>
   emit (Ln l) \<lparr>res = r, curr_filename = None, curr_lineno = None\<rparr> =
     Inr \<lparr>res = r @ [line_marker l, data l], curr_filename = Some (filename l),
          curr_lineno = Some (lineno l + 1)\<rparr>"
proof (intro conjI)
  obtain st0 where st0: "emit (Ln l0) st = Inr st0"
    and c0: "curr_filename st0 = Some (filename l0)" "curr_lineno st0 = Some (lineno l0 + 1)"
    by simp
  let ?st1 = "st0\<lparr>res := res st0 @ ss, curr_lineno := Some (lineno l0 + 1 + int (length ss))\<rparr>"
  have "emit_all emit (Ln l0 # map Str ss) st = Inr ?st1"
    using st0 emit_all_Strs [OF c0(2), of ss] by simp
  moreover have f1: "curr_filename ?st1 = Some (filename l0)" using c0 by simp
  moreover have n1: "curr_lineno ?st1 = Some (lineno l0 + 1 + int (length ss))" by simp
  moreover obtain st2 where "emit (Ln l) ?st1 = Inr st2"
    and "res st2 = res ?st1 @
       (if filename l = filename l0 \<and> lineno l = lineno l0 + 1 + int (length ss)
        then [data l] else [line_marker l, data l])"
    using f1 by simp
  ultimately show "\<exists>st1 st2.
     emit_all emit (Ln l0 # map Str ss) st = Inr st1 \<and>
     curr_filename st1 = Some (filename l0) \<and>
     curr_lineno st1 = Some (lineno l0 + 1 + int (length ss)) \<and>
     emit (Ln l) st1 = Inr st2 \<and>
     res st2 = res st1 @
       (if filename l = filename l0 \<and> lineno l = lineno l0 + 1 + int (length ss)
        then [data l] else [line_marker l, data l])" by blast
next
  show "\<exists>st2. emit (Ln l) st = Inr st2 \<and>
     res st2 = res st @
       (if curr_filename st = Some (filename l) \<and> curr_lineno st = Some (lineno l)
        then [data l] else [line_marker l, data l])"
    by auto
next
  show "emit (Ln l) \<lparr>res = r, curr_filename = None, curr_lineno = None\<rparr> =
     Inr \<lparr>res = r @ [line_marker l, data l], curr_filename = Some (filename l),
          curr_lineno = Some (lineno l + 1)\<rparr>"
    by simp
qed

theorem marker_iff_cursor_witness:
  "(\<exists>st1 st2.
     emit_all emit (Ln (la 1 ''x'') # map Str [''/* c */''])
       \<lparr>res = [], curr_filename = None, curr_lineno = None\<rparr> = Inr st1 \<and>
     curr_lineno st1 = Some 3 \<and>
     emit (Ln (la 3 ''y'')) st1 = Inr st2 \<and>
     res st2 = res st1 @ [''y'']) \<and>
   emit (Ln (la 3 ''y'')) \<lparr>res = [''b''], curr_filename = None, curr_lineno = None\<rparr> =
     Inr \<lparr>res = [''b'', line_marker (la 3 ''y''), ''y''], curr_filename = Some ''duk_a.h'',
          curr_lineno = Some 4\<rparr>"
  using marker_iff_cursor [of "la 1 ''x''" "[''/* c */'']"
      "\<lparr>res = [], curr_filename = None, curr_lineno = None\<rparr>" "la 3 ''y''" "[''b'']"]
  by (simp add: la_def)

text \<open>
  C2 as stated fails: line 1 of \<open>duk_a.h\<close>, a placeholder comment, then line 3 of
  \<open>duk_a.h\<close>. The last \<open>Line\<close> emitted before line 3 has origin \<open>(duk_a.h, 1)\<close>, line 3
  follows a synthetic string, and yet no marker precedes it.
\<close>

theorem marker_after_synthetic_counterexample:
  "emit_all emit [Ln (la 1 ''x''), Str (already_included ''duk_b.h''), Ln (la 3 ''y'')]
     \<lparr>res = [], curr_filename = None, curr_lineno = None\<rparr>
   = Inr \<lparr>res = [''#line 1 '' @ [dquote] @ ''duk_a.h'' @ [dquote], ''x'',
                 ''/* already included: duk_b.h */'', ''y''],
          curr_filename = Some ''duk_a.h'', curr_lineno = Some 4\<rparr>"
  by (simp add: la_def already_included_def line_marker_def show_int_def digits_of.simps)

section \<open>The pass over the remaining files\<close>

lemma emit_file_lines_items:
  "emit_file_lines emit_fn ls s = emit_all emit_fn (map body_item ls) s"
  by (induction ls arbitrary: s) (auto simp: body_item_def split: sum.splits option.splits)

lemma emit_keeps_cursor_set:
  "emit x st = Inr st' \<Longrightarrow> curr_lineno st' \<noteq> None"
  by (cases x) (auto split: option.splits)

lemma emit_all_returns:
  "curr_lineno st \<noteq> None \<Longrightarrow> \<exists>st'. emit_all emit xs st = Inr st'"
proof (induction xs arbitrary: st)
  case Nil
  then show ?case by simp
next
  case (Cons x xs)
  then obtain st1 where 1: "emit x st = Inr st1"
    by (cases x) auto
  with Cons.IH [OF emit_keeps_cursor_set [OF 1]] show ?case by simp
qed

text \<open>
  Once a \<open>Line\<close> has been emitted, the pass over a file cannot fail: every line is
  passed on, in its position, as itself or as the comment that takes the place of an
  internal include.
\<close>

lemma emit_file_lines_returns:
  "curr_lineno st \<noteq> None \<Longrightarrow>
   \<exists>st'. emit_file_lines emit ls st = Inr st' \<and> emit_all emit (map body_item ls) st = Inr st'"
  using emit_all_returns [of st "map body_item ls"] by (simp add: emit_file_lines_items)

text \<open>
  C8 fails when nothing has been emitted before the internal include: the root header is
  empty and the first line of the first source file includes it. The comment is
  appended and then \<open>emit_state[1] += 1\<close> raises \<open>TypeError\<close>, since the slot still holds
  \<open>None\<close>.
\<close>

theorem stray_include_type_error:
  "createCombined meta_fs stray_files [] [] 10203 ''abc'' ''v1.2.3'' ''LICENSE.txt'' ''AUTHORS.rst''
     = Inl TypeError"
  by (simp add: stray_files_def run_defs)

section \<open>The order of the files\<close>

lemma move_to_front_distinct:
  "distinct ps \<Longrightarrow> set ps \<subseteq> set fl \<Longrightarrow> distinct fl \<Longrightarrow>
   move_to_front ps fl = Inr (rev ps @ filter (\<lambda>x. x \<notin> set ps) fl)"
proof (induction ps arbitrary: fl)
  case Nil
  then show ?case by simp
next
  case (Cons p ps)
  have rm: "remove1 p fl = filter (\<lambda>x. x \<noteq> p) fl"
    using Cons.prems(3) by (simp add: distinct_remove1_removeAll removeAll_filter_not_eq) metis
  have "move_to_front ps (p # remove1 p fl)
      = Inr (rev ps @ filter (\<lambda>x. x \<notin> set ps) (p # remove1 p fl))"
    using Cons.prems by (intro Cons.IH) auto
  then show ?case using Cons.prems rm by (auto intro: filter_cong)
qed

lemma takeWhile_until:
  "c \<notin> set xs \<Longrightarrow> takeWhile (\<lambda>x. x \<noteq> c) (xs @ c # ys) = xs"
  by (induction xs) auto

lemma basename_path_join: "CHR ''/'' \<notin> set fn \<Longrightarrow> basename (path_join dir fn) = fn"
proof -
  assume ns: "CHR ''/'' \<notin> set fn"
  then have nr: "CHR ''/'' \<notin> set (rev fn)" by simp
  have hd: "\<not> (fn \<noteq> [] \<and> hd fn = CHR ''/'')" using ns by (cases fn) auto
  show ?thesis
  proof (cases dir rule: rev_cases)
    case Nil
    have tw: "takeWhile (\<lambda>c. c \<noteq> CHR ''/'') (rev fn) = rev fn"
      using nr by (auto simp: takeWhile_eq_all_conv)
    have "path_join dir fn = fn" using hd Nil by (auto simp: path_join_def)
    then show ?thesis by (simp only: basename_def tw rev_rev_ident)
  next
    case (snoc ds d)
    show ?thesis
    proof (cases "d = CHR ''/''")
      case True
      have tw: "takeWhile (\<lambda>c. c \<noteq> CHR ''/'') (rev fn @ CHR ''/'' # rev ds) = rev fn"
        using nr by (rule takeWhile_until)
      have "path_join dir fn = ds @ CHR ''/'' # fn"
        using hd snoc True by (auto simp: path_join_def)
      then have "rev (path_join dir fn) = rev fn @ CHR ''/'' # rev ds" by simp
      then show ?thesis by (simp only: basename_def tw rev_rev_ident)
    next
      case False
      have tw: "takeWhile (\<lambda>c. c \<noteq> CHR ''/'') (rev fn @ CHR ''/'' # d # rev ds) = rev fn"
        using nr by (rule takeWhile_until)
      have "path_join dir fn = ds @ d # CHR ''/'' # fn"
        using hd snoc False by (auto simp: path_join_def)
      then have "rev (path_join dir fn) = rev fn @ CHR ''/'' # d # rev ds" by simp
      then show ?thesis by (simp only: basename_def tw rev_rev_ident)
    qed
  qed
qed

lemma load_files_names:
  "\<forall>fn \<in> set fns. CHR ''/'' \<notin> set fn \<Longrightarrow>
   \<forall>fn \<in> set fns. splitext_ext fn \<in> set [''.c'', ''.h''] \<longrightarrow> fs (path_join dir fn) \<noteq> None \<Longrightarrow>
   \<exists>files. load_files fs dir fns = Inr files \<and>
     map filename files = filter (\<lambda>fn. splitext_ext fn \<in> set [''.c'', ''.h'']) fns \<and>
     list_all2 (\<lambda>f fn. read fs (path_join dir fn) = Inr f) files
       (filter (\<lambda>fn. splitext_ext fn \<in> set [''.c'', ''.h'']) fns)"
proof (induction fns)
  case Nil
  then show ?case by simp
next
  case (Cons fn fns)
  have "\<exists>files. load_files fs dir fns = Inr files \<and>
     map filename files = filter (\<lambda>fn. splitext_ext fn \<in> set [''.c'', ''.h'']) fns \<and>
     list_all2 (\<lambda>f fn. read fs (path_join dir fn) = Inr f) files
       (filter (\<lambda>fn. splitext_ext fn \<in> set [''.c'', ''.h'']) fns)"
    using Cons.prems by (intro Cons.IH) simp_all
  then obtain files where fl: "load_files fs dir fns = Inr files"
    and nm: "map filename files = filter (\<lambda>fn. splitext_ext fn \<in> set [''.c'', ''.h'']) fns"
    and rd: "list_all2 (\<lambda>f fn. read fs (path_join dir fn) = Inr f) files
       (filter (\<lambda>fn. splitext_ext fn \<in> set [''.c'', ''.h'']) fns)"
    by (elim exE conjE)
  show ?case
  proof (cases "splitext_ext fn \<in> set [''.c'', ''.h'']")
    case False
    with fl nm rd show ?thesis by simp
  next
    case True
    with Cons.prems(2) have "fs (path_join dir fn) \<noteq> None" by auto
    then obtain content where c: "fs (path_join dir fn) = Some content" by blast
    let ?f = "mk_File (path_join dir fn) (number_lines (path_join dir fn) 0 (split_lines [] content))"
    have rdf: "read fs (path_join dir fn) = Inr ?f" using c by (simp add: read_def)
    have ns: "CHR ''/'' \<notin> set fn" using Cons.prems(1) by simp
    have fnm: "filename ?f = fn"
      using basename_path_join [OF ns, of dir] by (simp add: mk_File_def)
    have lf: "load_files fs dir (fn # fns) = Inr (?f # files)"
      using True fl rdf by auto
    show ?thesis
    proof (intro exI [of _ "?f # files"] conjI)
      show "load_files fs dir (fn # fns) = Inr (?f # files)" by (rule lf)
      show "map filename (?f # files) =
          filter (\<lambda>fn. splitext_ext fn \<in> set [''.c'', ''.h'']) (fn # fns)"
        using fnm True nm by simp
      show "list_all2 (\<lambda>f fn. read fs (path_join dir fn) = Inr f) (?f # files)
          (filter (\<lambda>fn. splitext_ext fn \<in> set [''.c'', ''.h'']) (fn # fns))"
        using True rd rdf by simp
    qed
  qed
qed

lemma emit_remaining_items:
  "emit_remaining emit_fn processed files s =
     emit_all emit_fn
       (concat (map (\<lambda>f. map body_item (lines f)) (filter (\<lambda>f. filename f \<notin> processed) files))) s"
  by (induction files arbitrary: s)
     (auto simp: emit_file_lines_items emit_all_append split: sum.splits)

text \<open>
  C6. For a priority list without repetition whose names are all in the directory
  listing (itself without repetition), the order of the files is the priority list,
  in its order, followed by the other names of the sorted listing, still sorted. When no
  name holds a slash and every source file can be read, the files are loaded in that
  order, those with another extension left out, and the pass over the remaining files
  emits the lines of the files that are not processed, file after file in that order.
  With its own priority list, \<open>main\<close> passes exactly these files, in this order, to
  \<open>processIncludes\<close> and to \<open>createCombined\<close>.
\<close>

theorem order_files_priority:
  "distinct priority \<Longrightarrow> set priority \<subseteq> set listing \<Longrightarrow> distinct listing \<Longrightarrow>
   order_files priority listing = Inr (priority @ filter (\<lambda>x. x \<notin> set priority) (sort listing))
   \<and> sorted (filter (\<lambda>x. x \<notin> set priority) (sort listing))
   \<and> ((\<forall>fn \<in> set listing. CHR ''/'' \<notin> set fn) \<and>
       (\<forall>fn \<in> set listing. splitext_ext fn \<in> set [''.c'', ''.h''] \<longrightarrow> fs (path_join dir fn) \<noteq> None) \<longrightarrow>
       (\<exists>files.
          load_files fs dir (priority @ filter (\<lambda>x. x \<notin> set priority) (sort listing)) = Inr files \<and>
          map filename files =
            filter (\<lambda>fn. splitext_ext fn \<in> set [''.c'', ''.h''])
              (priority @ filter (\<lambda>x. x \<notin> set priority) (sort listing)) \<and>
          list_all2 (\<lambda>f fn. read fs (path_join dir fn) = Inr f) files
            (filter (\<lambda>fn. splitext_ext fn \<in> set [''.c'', ''.h''])
              (priority @ filter (\<lambda>x. x \<notin> set priority) (sort listing))) \<and>
          (\<forall>emit_fn processed s.
             emit_remaining emit_fn processed files s =
               emit_all emit_fn
                 (concat (map (\<lambda>f. map body_item (lines f))
                   (filter (\<lambda>f. filename f \<notin> processed) files))) s) \<and>
          (priority = handpick \<and> license_exists e \<and> argv_outname e \<noteq> [] \<and>
           env_listdir e = listing \<and> env_fs e = fs \<and> argv_srcdir e = dir \<longrightarrow>
           main e =
             (case collect_includes files ([], []) of
                Inl x \<Rightarrow> Inl x
              | Inr (extinc, intinc) \<Rightarrow>
                  (case createCombined fs files extinc intinc (argv_duk_version e)
                          (argv_git_commit e) (argv_git_describe e)
                          (argv_license_file e) (argv_authors_file e) of
                     Inl x \<Rightarrow> Inl x
                   | Inr final \<Rightarrow> Inr (argv_outname e, final))))))"
proof (intro conjI impI)
  assume d: "distinct priority" and sub: "set priority \<subseteq> set listing" and dl: "distinct listing"
  show o: "order_files priority listing =
      Inr (priority @ filter (\<lambda>x. x \<notin> set priority) (sort listing))"
    using move_to_front_distinct [of "rev priority" "sort listing"] d sub dl
    by (simp add: order_files_def)
  show "sorted (filter (\<lambda>x. x \<notin> set priority) (sort listing))"
    by (simp add: sorted_wrt_filter)
  assume h: "(\<forall>fn \<in> set listing. CHR ''/'' \<notin> set fn) \<and>
       (\<forall>fn \<in> set listing. splitext_ext fn \<in> set [''.c'', ''.h''] \<longrightarrow> fs (path_join dir fn) \<noteq> None)"
  let ?order = "priority @ filter (\<lambda>x. x \<notin> set priority) (sort listing)"
  have so: "set ?order \<subseteq> set listing" using sub by auto
  have "\<forall>fn \<in> set ?order. CHR ''/'' \<notin> set fn" using h so by blast
  moreover have "\<forall>fn \<in> set ?order. splitext_ext fn \<in> set [''.c'', ''.h''] \<longrightarrow>
      fs (path_join dir fn) \<noteq> None" using h so by blast
  ultimately have "\<exists>files. load_files fs dir ?order = Inr files \<and>
     map filename files = filter (\<lambda>fn. splitext_ext fn \<in> set [''.c'', ''.h'']) ?order \<and>
     list_all2 (\<lambda>f fn. read fs (path_join dir fn) = Inr f) files
       (filter (\<lambda>fn. splitext_ext fn \<in> set [''.c'', ''.h'']) ?order)"
    by (rule load_files_names)
  then obtain files where 1: "load_files fs dir ?order = Inr files"
    and 2: "map filename files = filter (\<lambda>fn. splitext_ext fn \<in> set [''.c'', ''.h'']) ?order"
    and 3: "list_all2 (\<lambda>f fn. read fs (path_join dir fn) = Inr f) files
       (filter (\<lambda>fn. splitext_ext fn \<in> set [''.c'', ''.h'']) ?order)"
    by (elim exE conjE)
  have 4: "\<forall>emit_fn processed s.
             emit_remaining emit_fn processed files s =
               emit_all emit_fn
                 (concat (map (\<lambda>f. map body_item (lines f))
                   (filter (\<lambda>f. filename f \<notin> processed) files))) s"
    by (intro allI) (rule emit_remaining_items)
  have 5: "(priority = handpick \<and> license_exists e \<and> argv_outname e \<noteq> [] \<and>
    env_listdir e = listing \<and> env_fs e = fs \<and> argv_srcdir e = dir \<longrightarrow>
    main e =
      (case collect_includes files ([], []) of
         Inl x \<Rightarrow> Inl x
       | Inr (extinc, intinc) \<Rightarrow>
           (case createCombined fs files extinc intinc (argv_duk_version e)
                   (argv_git_commit e) (argv_git_describe e)
                   (argv_license_file e) (argv_authors_file e) of
              Inl x \<Rightarrow> Inl x
            | Inr final \<Rightarrow> Inr (argv_outname e, final))))"
  proof (intro impI, elim conjE)
    assume p: "priority = handpick" and le: "license_exists e" and on: "argv_outname e \<noteq> []"
      and el: "env_listdir e = listing" and ef: "env_fs e = fs" and ed: "argv_srcdir e = dir"
    have a: "order_files handpick (env_listdir e) = Inr ?order" using o p el by simp
    show "main e =
             (case collect_includes files ([], []) of
                Inl x \<Rightarrow> Inl x
              | Inr (extinc, intinc) \<Rightarrow>
                  (case createCombined fs files extinc intinc (argv_duk_version e)
                          (argv_git_commit e) (argv_git_describe e)
                          (argv_license_file e) (argv_authors_file e) of
                     Inl x \<Rightarrow> Inl x
                   | Inr final \<Rightarrow> Inr (argv_outname e, final)))"
      using le on ef ed a 1 by (simp add: main_def cong: sum.case_cong)
  qed
  show "\<exists>files.
          load_files fs dir ?order = Inr files \<and>
          map filename files = filter (\<lambda>fn. splitext_ext fn \<in> set [''.c'', ''.h'']) ?order \<and>
          list_all2 (\<lambda>f fn. read fs (path_join dir fn) = Inr f) files
            (filter (\<lambda>fn. splitext_ext fn \<in> set [''.c'', ''.h'']) ?order) \<and>
          (\<forall>emit_fn processed s.
             emit_remaining emit_fn processed files s =
               emit_all emit_fn
                 (concat (map (\<lambda>f. map body_item (lines f))
                   (filter (\<lambda>f. filename f \<notin> processed) files))) s) \<and>
          (priority = handpick \<and> license_exists e \<and> argv_outname e \<noteq> [] \<and>
           env_listdir e = listing \<and> env_fs e = fs \<and> argv_srcdir e = dir \<longrightarrow>
           main e =
             (case collect_includes files ([], []) of
                Inl x \<Rightarrow> Inl x
              | Inr (extinc, intinc) \<Rightarrow>
                  (case createCombined fs files extinc intinc (argv_duk_version e)
                          (argv_git_commit e) (argv_git_describe e)
                          (argv_license_file e) (argv_authors_file e) of
                     Inl x \<Rightarrow> Inl x
                   | Inr final \<Rightarrow> Inr (argv_outname e, final))))"
    using 1 2 3 4 5 by (intro exI [of _ files] conjI)
qed

text \<open>
  The priority list of \<open>main\<close> on a directory with two more source files: the eight
  files, then \<open>a.c\<close> and \<open>b.c\<close>; the text file is not loaded and the root header is
  not emitted by this pass.
\<close>

theorem order_files_priority_witness:
  "order_files handpick order_listing =
     Inr (handpick @ [''a.c'', ''b.c'', ''duk_internal.h'', ''notes.txt'']) \<and>
   (\<exists>files.
      load_files order_fs ''src'' (handpick @ [''a.c'', ''b.c'', ''duk_internal.h'', ''notes.txt''])
        = Inr files \<and>
      map filename files = handpick @ [''a.c'', ''b.c'', ''duk_internal.h''] \<and>
      emit_remaining record_item {''duk_internal.h''} files [] =
        Inr (map (\<lambda>n. Ln (mk_Line (''src/'' @ n) 1 n)) (handpick @ [''a.c'', ''b.c''])) \<and>
      main order_env =
        (case collect_includes files ([], []) of
           Inl x \<Rightarrow> Inl x
         | Inr (extinc, intinc) \<Rightarrow>
             (case createCombined order_fs files extinc intinc 10203 ''abc'' ''v1.2.3''
                     ''src/LICENSE.txt'' ''src/AUTHORS.rst'' of
                Inl x \<Rightarrow> Inl x
              | Inr final \<Rightarrow> Inr (''duktape.c'', final)))) \<and>
   main order_env =
     Inr (''duktape.c'',
          join_lines (banner 10203 ''abc'' ''v1.2.3'' @
            [''/* LICENSE.txt */'', ''LICENSE.txt'', ''/* AUTHORS.rst */'', ''AUTHORS.rst''] @
            concat (map (\<lambda>n. [''#line 1 '' @ [dquote] @ n @ [dquote], n])
              (''duk_internal.h'' # handpick @ [''a.c'', ''b.c''])))
          @ [newline])"
proof -
  have h1: "distinct handpick" by (simp add: handpick_def)
  have h2: "set handpick \<subseteq> set order_listing" by (auto simp: order_listing_def)
  have h3: "distinct order_listing" by (simp add: order_listing_def handpick_def)
  have h4: "(\<forall>fn \<in> set order_listing. CHR ''/'' \<notin> set fn) \<and>
     (\<forall>fn \<in> set order_listing. splitext_ext fn \<in> set [''.c'', ''.h''] \<longrightarrow>
        order_fs (path_join ''src'' fn) \<noteq> None)"
    by (simp add: order_listing_def handpick_def order_fs_def path_join_def)
  have srt: "handpick @ filter (\<lambda>x. x \<notin> set handpick) (sort order_listing) =
      handpick @ [''a.c'', ''b.c'', ''duk_internal.h'', ''notes.txt'']"
    by (simp add: order_listing_def handpick_def)
  note T = order_files_priority [OF h1 h2 h3, where fs = order_fs and dir = "''src''"
      and e = order_env, unfolded srt]
  from T have o: "order_files handpick order_listing =
     Inr (handpick @ [''a.c'', ''b.c'', ''duk_internal.h'', ''notes.txt''])" by (rule conjunct1)
  from T [THEN conjunct2, THEN conjunct2, THEN mp, OF h4] obtain files where
    ld: "load_files order_fs ''src'' (handpick @ [''a.c'', ''b.c'', ''duk_internal.h'', ''notes.txt''])
        = Inr files"
    and nm: "map filename files = filter (\<lambda>fn. splitext_ext fn \<in> set [''.c'', ''.h''])
        (handpick @ [''a.c'', ''b.c'', ''duk_internal.h'', ''notes.txt''])"
    and mn: "handpick = handpick \<and> license_exists order_env \<and> argv_outname order_env \<noteq> [] \<and>
           env_listdir order_env = order_listing \<and> env_fs order_env = order_fs \<and>
           argv_srcdir order_env = ''src'' \<longrightarrow>
           main order_env =
             (case collect_includes files ([], []) of
                Inl x \<Rightarrow> Inl x
              | Inr (extinc, intinc) \<Rightarrow>
                  (case createCombined order_fs files extinc intinc (argv_duk_version order_env)
                          (argv_git_commit order_env) (argv_git_describe order_env)
                          (argv_license_file order_env) (argv_authors_file order_env) of
                     Inl x \<Rightarrow> Inl x
                   | Inr final \<Rightarrow> Inr (argv_outname order_env, final)))"
    by (elim exE conjE)
  have mn': "main order_env =
        (case collect_includes files ([], []) of
           Inl x \<Rightarrow> Inl x
         | Inr (extinc, intinc) \<Rightarrow>
             (case createCombined order_fs files extinc intinc 10203 ''abc'' ''v1.2.3''
                     ''src/LICENSE.txt'' ''src/AUTHORS.rst'' of
                Inl x \<Rightarrow> Inl x
              | Inr final \<Rightarrow> Inr (''duktape.c'', final)))"
    using mn by (simp add: order_env_def cong: sum.case_cong)
  have out: "main order_env =
     Inr (''duktape.c'',
          join_lines (banner 10203 ''abc'' ''v1.2.3'' @
            [''/* LICENSE.txt */'', ''LICENSE.txt'', ''/* AUTHORS.rst */'', ''AUTHORS.rst''] @
            concat (map (\<lambda>n. [''#line 1 '' @ [dquote] @ n @ [dquote], n])
              (''duk_internal.h'' # handpick @ [''a.c'', ''b.c''])))
          @ [newline])"
    by (simp add: order_env_def order_listing_def order_fs_def main_def order_files_def
        handpick_def read_def path_join_def processIncludes_def createCombined_def
        strip_def is_space_def ex_defs)
  have ev: "load_files order_fs ''src'' (handpick @ [''a.c'', ''b.c'', ''duk_internal.h'', ''notes.txt''])
      = Inr (map (\<lambda>n. mk_File (''src/'' @ n) [mk_Line (''src/'' @ n) 1 n])
          (handpick @ [''a.c'', ''b.c'', ''duk_internal.h'']))"
    by (simp add: handpick_def order_fs_def read_def splitext_ext_def basename_def path_join_def
        newline_def)
  with ld have fl: "files = map (\<lambda>n. mk_File (''src/'' @ n) [mk_Line (''src/'' @ n) 1 n])
          (handpick @ [''a.c'', ''b.c'', ''duk_internal.h''])" by simp
  have nm': "map filename files = handpick @ [''a.c'', ''b.c'', ''duk_internal.h'']"
    using nm by (simp add: handpick_def splitext_ext_def basename_def)
  have em: "emit_remaining record_item {''duk_internal.h''} files [] =
        Inr (map (\<lambda>n. Ln (mk_Line (''src/'' @ n) 1 n)) (handpick @ [''a.c'', ''b.c'']))"
    unfolding fl
    by (simp add: handpick_def ex_defs)
  from o ld nm' em mn' out show ?thesis by blast
qed

text \<open>The ordering alone, on the names \<open>b.c\<close>, \<open>a.c\<close>, \<open>z.c\<close> with priority list \<open>z.c\<close>.\<close>

lemma order_files_scenario:
  "order_files [''z.c''] [''b.c'', ''a.c'', ''z.c''] = Inr [''z.c'', ''a.c'', ''b.c'']"
  by (simp add: order_files_def)

section \<open>Determinism\<close>

text \<open>
  C3. The model is a function of the files, the arguments and the directory listing.
  The listing comes in an order that the system chooses; two runs that see the same
  names in different orders write the same output, or raise the same exception.
\<close>

theorem main_deterministic:
  "mset l1 = mset l2 \<Longrightarrow> main (e\<lparr>env_listdir := l1\<rparr>) = main (e\<lparr>env_listdir := l2\<rparr>)"
proof -
  assume "mset l1 = mset l2"
  then have "sort l1 = sort l2"
    by (metis properties_for_sort sorted_sort mset_sort)
  then show ?thesis by (simp add: main_def order_files_def cong: sum.case_cong)
qed

text \<open>
  The listing of the example checkout and its reverse: both runs write the same file,
  whose content is given.
\<close>

theorem main_deterministic_witness:
  "main (example_env ''int x;''\<lparr>env_listdir := rev (env_listdir (example_env ''int x;''))\<rparr>) =
   main (example_env ''int x;''\<lparr>env_listdir := env_listdir (example_env ''int x;'')\<rparr>) \<and>
   main (example_env ''int x;''\<lparr>env_listdir := env_listdir (example_env ''int x;'')\<rparr>) =
     Inr (''duktape.c'', join_lines (example_banner @
       [''#line 1 '' @ [dquote] @ ''duk_internal.h'' @ [dquote], ''int x;'',
        ''#line 1 '' @ [dquote] @ ''duk_strings.c'' @ [dquote], ''int s;'']) @ [newline])"
proof -
  have "mset (rev (env_listdir (example_env ''int x;''))) = mset (env_listdir (example_env ''int x;''))"
    by simp
  from main_deterministic [OF this, of "example_env ''int x;''"]
  have a: "main (example_env ''int x;''\<lparr>env_listdir := rev (env_listdir (example_env ''int x;''))\<rparr>) =
   main (example_env ''int x;''\<lparr>env_listdir := env_listdir (example_env ''int x;'')\<rparr>)" .
  have b: "main (example_env ''int x;''\<lparr>env_listdir := env_listdir (example_env ''int x;'')\<rparr>) =
     Inr (''duktape.c'', join_lines (example_banner @
       [''#line 1 '' @ [dquote] @ ''duk_internal.h'' @ [dquote], ''int x;'',
        ''#line 1 '' @ [dquote] @ ''duk_strings.c'' @ [dquote], ''int s;'']) @ [newline])"
    by (simp add: main_defs run_defs)
  from a b show ?thesis by simp
qed

section \<open>Malformed include directives\<close>

lemma processIncludes_loop_bad:
  "l \<in> set ls \<Longrightarrow> startswith (data l) ''#include'' \<Longrightarrow> re_extinc (data l) = None \<Longrightarrow>
   re_intinc (data l) = None \<Longrightarrow> processIncludes_loop ls acc = Inl ParseError"
proof (induction ls arbitrary: acc)
  case Nil
  then show ?case by simp
next
  case (Cons a ls)
  obtain ex it where acc: "acc = (ex, it)" by (cases acc)
  show ?case
  proof (cases "a = l")
    case True
    with Cons.prems acc show ?thesis by simp
  next
    case False
    with Cons.prems have "\<And>acc'. processIncludes_loop ls acc' = Inl ParseError"
      by (intro Cons.IH) auto
    then show ?thesis by (simp add: acc split: option.splits)
  qed
qed

lemma processIncludes_loop_error:
  "processIncludes_loop ls acc = Inl x \<Longrightarrow> x = ParseError"
  by (induction ls acc rule: processIncludes_loop.induct) (auto split: if_splits option.splits)

lemma collect_includes_bad:
  "f \<in> set files \<Longrightarrow> l \<in> set (lines f) \<Longrightarrow> startswith (data l) ''#include'' \<Longrightarrow>
   re_extinc (data l) = None \<Longrightarrow> re_intinc (data l) = None \<Longrightarrow>
   collect_includes files acc = Inl ParseError"
proof (induction files arbitrary: acc)
  case Nil
  then show ?case by simp
next
  case (Cons a files)
  obtain ex it where acc: "acc = (ex, it)" by (cases acc)
  show ?case
  proof (cases "processIncludes a")
    case (Inl x)
    then have "x = ParseError"
      unfolding processIncludes_def by (rule processIncludes_loop_error)
    with Inl show ?thesis by (simp add: acc)
  next
    case (Inr r)
    have "a \<noteq> f"
    proof
      assume "a = f"
      with Cons.prems have "processIncludes a = Inl ParseError"
        unfolding processIncludes_def by (intro processIncludes_loop_bad) auto
      with Inr show False by simp
    qed
    with Cons.prems have "\<And>acc'. collect_includes files acc' = Inl ParseError"
      by (intro Cons.IH) auto
    with Inr show ?thesis by (simp add: acc split: prod.splits)
  qed
qed

text \<open>
  C4. When the working directory and the arguments are in order and the files have
  been read, a line of one of them that starts with \<open>#include\<close> and matches neither
  recogniser makes \<open>main\<close> raise the parse exception; the statement that writes the
  output is not reached.
\<close>

theorem main_parse_error:
  assumes "license_exists e" and "argv_outname e \<noteq> []"
    and "order_files handpick (env_listdir e) = Inr filelist"
    and "load_files (env_fs e) (argv_srcdir e) filelist = Inr files"
    and "f \<in> set files" and "l \<in> set (lines f)"
    and "startswith (data l) ''#include''"
    and "re_extinc (data l) = None" and "re_intinc (data l) = None"
  shows "main e = Inl ParseError"
  using assms collect_includes_bad [OF assms(5-9), of "([], [])"]
  by (simp add: main_def)

lemma example_order:
  "order_files handpick (env_listdir (example_env t)) =
     Inr (handpick @ [''README'', ''duk_internal.h''])"
  by (simp add: example_env_def order_files_def handpick_def)

lemma example_load:
  "load_files (env_fs (example_env t)) (argv_srcdir (example_env t))
     (handpick @ [''README'', ''duk_internal.h'']) = Inr (example_files t)"
  by (simp add: example_env_def example_files_def handpick_def example_fs_def read_def
      splitext_ext_def basename_def path_join_def)

theorem main_parse_error_witness:
  "main (example_env (inc_quoted ''foo.h'')) = Inl ParseError"
  by (rule main_parse_error [where e = "example_env (inc_quoted ''foo.h'')"
     and l = "mk_Line ''src/duk_internal.h'' 1 (inc_quoted ''foo.h'')"
     and f = "mk_File ''src/duk_internal.h''
               [mk_Line ''src/duk_internal.h'' 1 (inc_quoted ''foo.h'')]",
     OF _ _ example_order example_load])
   (simp_all add: example_env_def example_files_def inc_quoted_def dquote_def newline_def
      startswith_def re_extinc_def re_intinc_def mk_File_def mk_Line_def)

section \<open>The expansion of the headers\<close>

lemma findFile_filename: "findFile files n = Some f \<Longrightarrow> filename f = n"
  by (auto simp: findFile_def find_Some_iff)




lemma header_content_lines:
  "\<forall>l \<in> set bs. re_intinc (data l) = None \<Longrightarrow>
   processHeader_lines emit_fn files bs (s, processed) =
     (case emit_all emit_fn (map Ln bs) s of Inl e \<Rightarrow> Inl e | Inr s' \<Rightarrow> Inr (s', processed))"
  by (induction bs arbitrary: s) (auto split: sum.splits)










text \<open>
  C1 fails when a header includes the root header, as in \<open>cycle_files\<close>: the lines
  \<open>x\<close> and \<open>y\<close> of the root header are in the output twice, because \<open>duk_b.h\<close> includes the root header, which was not marked as
  processed when its expansion began.
\<close>

theorem root_content_twice:
  "createCombined meta_fs cycle_files [] [] 10203 ''abc'' ''v1.2.3'' ''LICENSE.txt'' ''AUTHORS.rst''
     = Inr (join_lines (example_banner @
         [''#line 1 '' @ [dquote] @ ''duk_internal.h'' @ [dquote], ''x'',
          ''#line 1 '' @ [dquote] @ ''duk_internal.h'' @ [dquote], ''x'',
          ''/* already included: duk_b.h */'', ''y'',
          ''#line 2 '' @ [dquote] @ ''duk_b.h'' @ [dquote], ''b'',
          ''#line 3 '' @ [dquote] @ ''duk_internal.h'' @ [dquote], ''y'']) @ [newline])"
  by (simp add: cycle_files_def run_defs)

section \<open>External includes\<close>




section \<open>Termination and the scenario with a header included twice\<close>

text \<open>
  Every chain of nested calls of the expansion is finite, whatever the files include:
  the arguments of every call are in the accessible part of the call relation (the call
  descends only into a header whose name it has just added to \<open>processed\<close>). In the
  scenario, a header includes \<open>b\<close> and then \<open>c\<close>, neither processed yet, where \<open>b\<close> has no
  internal include and the one line of \<open>c\<close> includes \<open>b\<close>: the emitter receives the lines
  of \<open>b\<close> once, then one placeholder comment, and both names are processed, unless the
  emitter raises.
\<close>

theorem expansion_terminates:
  "processHeader_lines_dom (emit_fn, files, ls, st) \<and>
   (findFile files b = Some f_b \<and> findFile files c = Some f_c \<and> b \<noteq> c \<and>
    b \<notin> set [''duktape.h'', ''duk_custom.h''] \<and> c \<notin> set [''duktape.h'', ''duk_custom.h''] \<and>
    b \<notin> processed \<and> c \<notin> processed \<and>
    (\<forall>l \<in> set (lines f_b). re_intinc (data l) = None) \<and>
    lines f_c = [l_c] \<and> re_intinc (data l_c) = Some b \<and>
    re_intinc (data l1) = Some b \<and> re_intinc (data l2) = Some c \<longrightarrow>
    processHeader_lines emit_fn files [l1, l2] (s, processed) =
      (case emit_all emit_fn (map Ln (lines f_b) @ [Str (already_included b)]) s of
         Inl e \<Rightarrow> Inl e
       | Inr s' \<Rightarrow> Inr (s', insert c (insert b processed))))"
proof (intro conjI impI)
  show "processHeader_lines_dom (emit_fn, files, ls, st)"
    by (rule processHeader_lines_total)
next
  assume h: "findFile files b = Some f_b \<and> findFile files c = Some f_c \<and> b \<noteq> c \<and>
    b \<notin> set [''duktape.h'', ''duk_custom.h''] \<and> c \<notin> set [''duktape.h'', ''duk_custom.h''] \<and>
    b \<notin> processed \<and> c \<notin> processed \<and>
    (\<forall>l \<in> set (lines f_b). re_intinc (data l) = None) \<and>
    lines f_c = [l_c] \<and> re_intinc (data l_c) = Some b \<and>
    re_intinc (data l1) = Some b \<and> re_intinc (data l2) = Some c"
  then have fb: "findFile files b = Some f_b" and fc: "findFile files c = Some f_c"
    and ne: "b \<noteq> c"
    and sp: "b \<notin> set [''duktape.h'', ''duk_custom.h'']" "c \<notin> set [''duktape.h'', ''duk_custom.h'']"
    and np: "b \<notin> processed" "c \<notin> processed"
    and cb: "\<forall>l \<in> set (lines f_b). re_intinc (data l) = None"
    and cc: "lines f_c = [l_c]" "re_intinc (data l_c) = Some b"
    and a: "re_intinc (data l1) = Some b" "re_intinc (data l2) = Some c"
    by blast+
  have nb: "filename f_b = b" and nc: "filename f_c = c"
    using fb fc by (auto dest: findFile_filename)
  have 1: "processHeader_lines emit_fn files (lines f_b) (s, insert b processed) =
     (case emit_all emit_fn (map Ln (lines f_b)) s of Inl e \<Rightarrow> Inl e
      | Inr s' \<Rightarrow> Inr (s', insert b processed))"
    using cb by (rule header_content_lines)
  have 2: "\<And>s'. processHeader_lines emit_fn files (lines f_c) (s', insert c (insert b processed)) =
     (case emit_fn (Str (already_included b)) s' of Inl e \<Rightarrow> Inl e
      | Inr s'' \<Rightarrow> Inr (s'', insert c (insert b processed)))"
    using cc fb nb sp by (simp split: sum.splits)
  have 3: "\<And>s'. processHeader_lines emit_fn files [l2] (s', insert b processed) =
     (case emit_fn (Str (already_included b)) s' of Inl e \<Rightarrow> Inl e
      | Inr s'' \<Rightarrow> Inr (s'', insert c (insert b processed)))"
    using a(2) fc nc sp np ne 2 by (simp split: sum.splits)
  show "processHeader_lines emit_fn files [l1, l2] (s, processed) =
      (case emit_all emit_fn (map Ln (lines f_b) @ [Str (already_included b)]) s of
         Inl e \<Rightarrow> Inl e
       | Inr s' \<Rightarrow> Inr (s', insert c (insert b processed)))"
    using a(1) fb nb sp np 1 3
    by (simp add: emit_all_append split: sum.splits)
qed

text \<open>The scenario with the emitter of the script, from its initial state.\<close>

theorem expansion_terminates_witness:
  "processHeader_lines emit scenario_files
     [mk_Line ''src/duk_a.h'' 1 (inc_quoted ''duk_b.h''),
      mk_Line ''src/duk_a.h'' 2 (inc_quoted ''duk_c.h'')]
     (init_st, {}) =
   Inr (\<lparr>res = [''#line 1 '' @ [dquote] @ ''duk_b.h'' @ [dquote], ''b1'', ''b2'',
                  ''/* already included: duk_b.h */''],
          curr_filename = Some ''duk_b.h'', curr_lineno = Some 4\<rparr>,
        {''duk_c.h'', ''duk_b.h''})"
  using expansion_terminates [of emit scenario_files "[]" "(init_st, {})" "''duk_b.h''"
     "hdr ''duk_b.h'' [''b1'', ''b2'']" "''duk_c.h''" "hdr ''duk_c.h'' [inc_quoted ''duk_b.h'']" "{}"
     "mk_Line ''src/duk_c.h'' 1 (inc_quoted ''duk_b.h'')"
     "mk_Line ''src/duk_a.h'' 1 (inc_quoted ''duk_b.h'')"
     "mk_Line ''src/duk_a.h'' 2 (inc_quoted ''duk_c.h'')" init_st]
  by (simp add: scenario_files_def ex_defs)

text \<open>
  C5 fails when the header included twice is empty and nothing has been emitted before:
  the expansion terminates, but the placeholder comment for the second include is
  appended while the cursor still holds \<open>None\<close>, and \<open>emit_state[1] += 1\<close> raises
  \<open>TypeError\<close>.
\<close>

theorem empty_header_type_error:
  "createCombined meta_fs empty_b_files [] [] 10203 ''abc'' ''v1.2.3'' ''LICENSE.txt'' ''AUTHORS.rst''
     = Inl TypeError"
  by (simp add: empty_b_files_def run_defs)

end
